theory Spec2Isabelle
  imports Complex_Main
begin

section \<open>The build processor script of the OBF container\<close>

text \<open>
  The Lua program \<^verbatim>\<open>LUA_SCRIPT\<close> of \<^verbatim>\<open>obf/cli.py\<close> drives the machine through the
  host objects \<^verbatim>\<open>machine\<close>, \<^verbatim>\<open>mqtt\<close>, \<^verbatim>\<open>system\<close> and \<^verbatim>\<open>os\<close>. The host is not part of
  the repository, so it is a parameter of the model: every call of the script is appended
  to a trace, and the host's answer is an arbitrary function of the world the call is
  made in (clock and whole history of calls).
\<close>

subsection \<open>Data\<close>

text \<open>An exposure pattern of a layer: \<^verbatim>\<open>{ file = ..., repetitions = ... }\<close>.\<close>

record obp =
  obp_file :: string
  repetitions :: int

text \<open>
  A layer of \<^verbatim>\<open>build_info.layers\<close>. The script tests \<^verbatim>\<open>jumpSafe\<close>, \<^verbatim>\<open>spatterSafe\<close> and
  \<^verbatim>\<open>heatBalance\<close> against \<^verbatim>\<open>nil\<close> (\<open>None\<close>); \<^verbatim>\<open>melt\<close> is iterated unguarded.
\<close>

record layer =
  jumpSafe :: "obp list option"
  spatterSafe :: "obp list option"
  melt :: "obp list"
  heatBalance :: "obp list option"

record start_heat =
  heat_file :: string
  temperatureSensor :: string
  targetTemperature :: real
  heat_timeout :: real

record build_info =
  startHeat :: start_heat
  layerFeed :: "(string \<times> real) list option"
  layers :: "layer list"

text \<open>
  A message is a Lua string built by concatenation; numbers spliced into it are kept
  as fragments, so that no number formatting is modelled.
\<close>

datatype frag = S string | N int | R real

type_synonym message = "frag list"

datatype topic = Topic string string string

datatype event =
    Print message
  | PublishField string string string string message
  | PublishLayers nat nat
  | AddSubscription topic
  | GetField topic string
  | BeamIsOn
  | RestartHV real
  | StartExposure string int
  | GetTemperature string
  | ClearExposureQueue
  | RecoatCycle "(string \<times> real) list"
  | StartProcessStepExposures "obp list" "obp list" "obp list" "obp list"
  | RestartAfterArcTrip "bool option" real
  | GetHvCurrent
  | BeamOff
  | PowerOff
  | Sleep real

text \<open>
  The world: the clock read by \<^verbatim>\<open>os.time()\<close>, the calls made so far, and the script's
  global variable \<^verbatim>\<open>newPowderLayer\<close> (\<open>None\<close> while it is \<^verbatim>\<open>nil\<close>).
\<close>

record world =
  clock :: real
  trace :: "event list"
  newPowderLayer :: "bool option"

text \<open>The host's answers, each a function of the world right after the call was recorded.\<close>

record machine =
  beam_is_on :: "world \<Rightarrow> bool"
  restartHV :: "world \<Rightarrow> bool"
  get_temperature :: "world \<Rightarrow> real option"
  clear_exposure_queue :: "world \<Rightarrow> bool"
  recoat_cycle :: "world \<Rightarrow> bool"
  start_process_step_exposures :: "world \<Rightarrow> int"
  restart_after_arc_trip :: "world \<Rightarrow> bool"
  get_hv_current :: "world \<Rightarrow> real option"
  get_field :: "world \<Rightarrow> int"

text \<open>Lua's \<^verbatim>\<open>error(message)\<close>.\<close>

datatype error = Error message

subsection \<open>Host calls\<close>

definition emit :: "event \<Rightarrow> world \<Rightarrow> world" where
  "emit e w = w\<lparr>trace := trace w @ [e]\<rparr>"

definition call :: "event \<Rightarrow> (world \<Rightarrow> 'a) \<Rightarrow> world \<Rightarrow> 'a \<times> world" where
  "call e answer w = (answer (emit e w), emit e w)"

definition system_print :: "message \<Rightarrow> world \<Rightarrow> world" where
  "system_print message w = emit (Print message) w"

text \<open>
  \<^verbatim>\<open>system.sleep(interval)\<close>: the time advances by the interval; nothing else takes time.
\<close>

definition system_sleep :: "real \<Rightarrow> world \<Rightarrow> world" where
  "system_sleep interval w = (emit (Sleep interval) w)\<lparr>clock := clock w + interval\<rparr>"

text \<open>\<^verbatim>\<open>os.time()\<close> counts whole seconds.\<close>

definition os_time :: "world \<Rightarrow> real" where
  "os_time w = of_int \<lfloor>clock w\<rfloor>"

definition log_msg :: "message \<Rightarrow> world \<Rightarrow> world" where
  "log_msg message w =
     emit (PublishField ''BuildStatus'' ''Trace'' ''Activity'' ''current_activity'' message)
       (system_print message w)"

definition logfatal :: "machine \<Rightarrow> message \<Rightarrow> world \<Rightarrow> (error + 'a) \<times> world" where
  "logfatal m message w =
     (let message' = S ''Build Error: '' # message;
          w1 = log_msg message' w;
          (_, w2) = call ClearExposureQueue (clear_exposure_queue m) w1
      in (Inl (Error message'), w2))"

definition jump_safe_input :: topic where
  "jump_safe_input = Topic ''Parameters'' ''Name'' ''PreHeatRepetitions''"

definition heat_balance_input :: topic where
  "heat_balance_input = Topic ''Parameters'' ''Name'' ''PostHeatRepetitions''"

definition maxRetryCount :: nat where
  "maxRetryCount = 10"

subsection \<open>One exposure attempt\<close>

text \<open>The four pattern tables built at the top of the \<^verbatim>\<open>while not layerDone\<close> body.\<close>

definition jumpSafePatterns :: "int \<Rightarrow> layer \<Rightarrow> obp list" where
  "jumpSafePatterns currentJumpSafeReps l =
     (case jumpSafe l of
        None \<Rightarrow> []
      | Some obps \<Rightarrow>
          map (\<lambda>p. \<lparr>obp_file = obp_file p, repetitions = currentJumpSafeReps + repetitions p\<rparr>) obps)"

definition spatterSafePatterns :: "layer \<Rightarrow> obp list" where
  "spatterSafePatterns l = []"

definition meltPatterns :: "layer \<Rightarrow> obp list" where
  "meltPatterns l =
     (case spatterSafe l of
        None \<Rightarrow> []
      | Some _ \<Rightarrow> map (\<lambda>p. \<lparr>obp_file = obp_file p, repetitions = repetitions p\<rparr>) (melt l))
     @ map (\<lambda>p. \<lparr>obp_file = obp_file p, repetitions = repetitions p\<rparr>) (melt l)"

definition heatBalancePatterns :: "int \<Rightarrow> layer \<Rightarrow> obp list" where
  "heatBalancePatterns heatBalanceRepetitions l =
     (case heatBalance l of
        None \<Rightarrow> []
      | Some obps \<Rightarrow>
          map (\<lambda>p. \<lparr>obp_file = obp_file p, repetitions = repetitions p + heatBalanceRepetitions\<rparr>) obps)"

definition exposing_message :: "nat \<Rightarrow> nat \<Rightarrow> message" where
  "exposing_message index retryCount =
     [S ''Exposing OBP files of layer '', N (int index), S ''.'']
     @ (if retryCount > 0 then [S '' Retry '', N (int retryCount)] else [])"

text \<open>Lines 160 to 162 and 192 to 194: the two parameters, read anew in every attempt.\<close>

definition read_jump_safe_reps :: "machine \<Rightarrow> world \<Rightarrow> int \<times> world" where
  "read_jump_safe_reps m w =
     (let (currentJumpSafeReps, w1) = call (GetField jump_safe_input ''repetitions'') (get_field m) w
      in (currentJumpSafeReps, system_print [S ''Jump safe reps: '', N currentJumpSafeReps] w1))"

definition read_heat_balance_reps :: "machine \<Rightarrow> world \<Rightarrow> int \<times> world" where
  "read_heat_balance_reps m w =
     (let (heatBalanceRepetitions, w1) =
            call (GetField heat_balance_input ''repetitions'') (get_field m) w
      in (heatBalanceRepetitions,
          system_print [S ''Heat balance reps: '', N heatBalanceRepetitions] w1))"

text \<open>
  Lines 148 to 206: read both parameters, build the tables, log, and submit the four
  groups. The result is the machine's \<^verbatim>\<open>err_id\<close>.
\<close>

definition submit :: "machine \<Rightarrow> nat \<Rightarrow> layer \<Rightarrow> nat \<Rightarrow> world \<Rightarrow> int \<times> world" where
  "submit m index l retryCount w0 =
     (let (currentJumpSafeReps, w1) = read_jump_safe_reps m w0;
          (heatBalanceRepetitions, w2) = read_heat_balance_reps m w1;
          w3 = log_msg (exposing_message index retryCount) w2
      in call (StartProcessStepExposures
                 (jumpSafePatterns currentJumpSafeReps l) (spatterSafePatterns l)
                 (meltPatterns l) (heatBalancePatterns heatBalanceRepetitions l))
              (start_process_step_exposures m) w3)"

text \<open>
  Lines 207 to 225: the \<^verbatim>\<open>if err_id == ...\<close> chain. It returns \<^verbatim>\<open>layerDone\<close>, which is
  false when the body starts; an \<^verbatim>\<open>err_id\<close> outside 0..4 leaves both variables as they are.
\<close>

definition classify :: "int \<Rightarrow> world \<Rightarrow> bool \<times> world" where
  "classify err_id w =
     (if err_id = 0 then (True, w)
      else if err_id = 1 then
        (False, (log_msg [S ''Arc trip during Jump Safe exposure''] w)\<lparr>newPowderLayer := Some False\<rparr>)
      else if err_id = 2 then
        (False, (log_msg [S ''Arc trip during Spatter Safe exposure''] w)\<lparr>newPowderLayer := Some False\<rparr>)
      else if err_id = 3 then
        (False, (log_msg [S ''Arc trip during Melt exposure''] w)\<lparr>newPowderLayer := Some True\<rparr>)
      else if err_id = 4 then
        (True, (log_msg [S ''Arc trip during Heat Balance exposure''] w)\<lparr>newPowderLayer := Some False\<rparr>)
      else (False, w))"

text \<open>Lines 226 to 231: queue clear and arc trip recovery after a fault.\<close>

definition recover :: "machine \<Rightarrow> int \<Rightarrow> world \<Rightarrow> (error + unit) \<times> world" where
  "recover m err_id w =
     (if err_id \<noteq> 0 then
        (let (_, w1) = call ClearExposureQueue (clear_exposure_queue m) w;
             (ok, w2) = call (RestartAfterArcTrip (newPowderLayer w1) 60) (restart_after_arc_trip m) w1
         in if \<not> ok then logfatal m [S ''Unable to recover from arc trip''] w2
            else (Inr (), w2))
      else (Inr (), w))"

text \<open>
  Lines 207 to 237: what the loop body does with \<^verbatim>\<open>err_id\<close>. It returns \<^verbatim>\<open>layerDone\<close> and the
  new \<^verbatim>\<open>retryCount\<close>, or the error raised.
\<close>

definition handle :: "machine \<Rightarrow> int \<Rightarrow> nat \<Rightarrow> world \<Rightarrow> (error + bool \<times> nat) \<times> world" where
  "handle m err_id retryCount w =
     (let (layerDone, w1) = classify err_id w
      in case recover m err_id w1 of
           (Inl e, w2) \<Rightarrow> (Inl e, w2)
         | (Inr _, w2) \<Rightarrow>
             (let retryCount' = (if \<not> layerDone then retryCount + 1 else retryCount)
              in if retryCount' > maxRetryCount
                 then logfatal m [S ''Maximum retry count exceeded!''] w2
                 else (Inr (layerDone, retryCount'), w2)))"

definition attempt :: "machine \<Rightarrow> nat \<Rightarrow> layer \<Rightarrow> nat \<Rightarrow> world \<Rightarrow> (error + bool \<times> nat) \<times> world" where
  "attempt m index l retryCount w =
     (let (err_id, w1) = submit m index l retryCount w in handle m err_id retryCount w1)"

subsection \<open>The retry loop of a layer\<close>

lemma handle_not_done:
  "handle m err_id retryCount w = (Inr (False, retryCount'), w') \<Longrightarrow>
   retryCount' = retryCount + 1 \<and> retryCount' \<le> maxRetryCount"
  by (auto simp: handle_def logfatal_def Let_def split: prod.splits sum.splits if_splits)

lemma attempt_not_done:
  "attempt m index l retryCount w = (Inr (False, retryCount'), w') \<Longrightarrow>
   retryCount' = retryCount + 1 \<and> retryCount' \<le> maxRetryCount"
  by (auto simp: attempt_def split: prod.splits dest: handle_not_done)

text \<open>
  Lines 144 to 238: \<^verbatim>\<open>while not layerDone do ... end\<close>, entered with \<^verbatim>\<open>layerDone = false\<close>.
  An error raised in the body leaves the loop.
\<close>

function expose_layer :: "machine \<Rightarrow> nat \<Rightarrow> layer \<Rightarrow> nat \<Rightarrow> world \<Rightarrow> (error + unit) \<times> world" where
  "expose_layer m index l retryCount w =
     (case attempt m index l retryCount w of
        (Inl e, w') \<Rightarrow> (Inl e, w')
      | (Inr (layerDone, retryCount'), w') \<Rightarrow>
          if layerDone then (Inr (), w') else expose_layer m index l retryCount' w')"
  by pat_completeness auto
termination
proof (relation "measure (\<lambda>(m, index, l, retryCount, w). Suc maxRetryCount - retryCount)")
  show "wf (measure (\<lambda>(m, index, l, retryCount, w). Suc maxRetryCount - retryCount))"
    by simp
next
  fix m index l retryCount w x1 w' x2 layerDone retryCount'
  assume "(x1, w') = attempt m index l retryCount w" "x1 = Inr x2"
    "(layerDone, retryCount') = x2" "\<not> layerDone"
  then have "attempt m index l retryCount w = (Inr (False, retryCount'), w')"
    by (cases layerDone) auto
  from attempt_not_done[OF this]
  show "((m, index, l, retryCount', w'), (m, index, l, retryCount, w))
        \<in> measure (\<lambda>(m, index, l, retryCount, w). Suc maxRetryCount - retryCount)"
    by auto
qed

declare expose_layer.simps [simp del]

subsection \<open>Waiting\<close>

text \<open>
  \<^verbatim>\<open>wait(predicate, timeout, settings)\<close>. A predicate is a Lua closure: it may call the
  host and may raise. The loop has no bound of its own, so not returning is \<open>None\<close>.
  \<open>settings\<close> is the interval of the settings table (\<open>None\<close> without table or field).
\<close>

partial_function (option) wait_loop ::
  "(world \<Rightarrow> (error + bool) \<times> world) \<Rightarrow> real \<Rightarrow> real \<Rightarrow> world \<Rightarrow> ((error + bool) \<times> world) option"
where
  "wait_loop predicate interval deadline w =
     (case predicate w of
        (Inl e, w1) \<Rightarrow> Some (Inl e, w1)
      | (Inr holds, w1) \<Rightarrow>
          if holds then Some (Inr True, w1)
          else (let w2 = system_sleep interval w1
                in if os_time w2 \<ge> deadline then Some (Inr False, w2)
                   else wait_loop predicate interval deadline w2))"

text \<open>Lines 21 to 24: the interval is 1 unless the settings give one.\<close>

definition interval_of :: "real option \<Rightarrow> real" where
  "interval_of settings = (case settings of None \<Rightarrow> 1 | Some i \<Rightarrow> i)"

definition wait ::
  "(world \<Rightarrow> (error + bool) \<times> world) \<Rightarrow> real \<Rightarrow> real option \<Rightarrow> world \<Rightarrow> ((error + bool) \<times> world) option"
where
  "wait predicate timeout settings w =
     (let interval = interval_of settings;
          deadline = os_time w + timeout
      in wait_loop predicate interval deadline w)"

text \<open>Sequencing of script steps: an error or a loop that does not return ends the run.\<close>

definition and_then ::
  "(world \<Rightarrow> ((error + 'a) \<times> world) option) \<Rightarrow> ('a \<Rightarrow> world \<Rightarrow> ((error + 'b) \<times> world) option)
   \<Rightarrow> world \<Rightarrow> ((error + 'b) \<times> world) option"
where
  "and_then f g w =
     (case f w of
        None \<Rightarrow> None
      | Some (Inl e, w') \<Rightarrow> Some (Inl e, w')
      | Some (Inr x, w') \<Rightarrow> g x w')"

definition hv_current_low :: "machine \<Rightarrow> world \<Rightarrow> (error + bool) \<times> world" where
  "hv_current_low m w =
     (let (hv_current, w1) = call GetHvCurrent (get_hv_current m) w
      in (Inr (case hv_current of None \<Rightarrow> False | Some c \<Rightarrow> c \<le> 1), w1))"

definition wait_for_beam_power_low :: "machine \<Rightarrow> world \<Rightarrow> ((error + unit) \<times> world) option" where
  "wait_for_beam_power_low m =
     and_then (wait (hv_current_low m) 30 None)
       (\<lambda>low w.
          if \<not> low then
            (let (_, w1) = call ClearExposureQueue (clear_exposure_queue m) w
             in Some (Inl (Error [S ''Build Aborted: BeamPowerLow condition timed out'']), w1))
          else Some (Inr (), w))"

subsection \<open>The script\<close>

text \<open>
  \<^verbatim>\<open>if not machine.beam_is_on() and not machine.restartHV(60) then logfatal(...) end\<close>:
  the restart is asked for only when the beam is off.
\<close>

definition start_beam :: "machine \<Rightarrow> world \<Rightarrow> (error + unit) \<times> world" where
  "start_beam m w =
     (let (is_on, w1) = call BeamIsOn (beam_is_on m) w
      in if \<not> is_on then
           (let (started, w2) = call (RestartHV 60) (restartHV m) w1
            in if \<not> started then logfatal m [S ''Failed to start beam''] w2 else (Inr (), w2))
         else (Inr (), w1))"

text \<open>The predicate of the start heat wait (lines 106 to 112).\<close>

definition temperature_reached :: "machine \<Rightarrow> start_heat \<Rightarrow> world \<Rightarrow> (error + bool) \<times> world" where
  "temperature_reached m sh w =
     (case start_beam m w of
        (Inl e, w1) \<Rightarrow> (Inl e, w1)
      | (Inr _, w1) \<Rightarrow>
          (let (temperature, w2) = call (GetTemperature (temperatureSensor sh)) (get_temperature m) w1
           in (Inr (case temperature of None \<Rightarrow> False | Some t \<Rightarrow> t \<ge> targetTemperature sh), w2)))"

text \<open>Lines 96 to 118.\<close>

definition start_heating :: "machine \<Rightarrow> start_heat \<Rightarrow> world \<Rightarrow> ((error + unit) \<times> world) option" where
  "start_heating m sh w0 =
     (let w1 = log_msg [S ''Init''] w0;
          w2 = log_msg [S ''Turning on the beam''] w1
      in case start_beam m w2 of
           (Inl e, w3) \<Rightarrow> Some (Inl e, w3)
         | (Inr _, w3) \<Rightarrow>
             (let w4 = log_msg [S ''The beam is active''] w3;
                  w5 = log_msg [S ''Start heating to target temperature: '', R (targetTemperature sh)] w4;
                  w6 = emit (StartExposure (heat_file sh) 4294967295) w5;
                  w7 = system_print
                         [S ''Waiting for '', R (heat_timeout sh),
                          S '' seconds or until target temperature is reached.''] w6
              in and_then (wait (temperature_reached m sh) (heat_timeout sh) (Some (1 / 2)))
                   (\<lambda>reached w.
                      if \<not> reached then Some (logfatal m [S ''Failed to reach target temperature''] w)
                      else (let (cleared, w') = call ClearExposureQueue (clear_exposure_queue m) w
                            in if \<not> cleared
                               then Some (logfatal m [S ''Failed to clear exposure queue''] w')
                               else Some (Inr (), w')))
                   w7))"

text \<open>The body of the \<^verbatim>\<open>for index, layer in ipairs(build_info.layers)\<close> loop (lines 122 to 238).\<close>

definition process_layer ::
  "machine \<Rightarrow> (string \<times> real) list \<Rightarrow> nat \<Rightarrow> nat \<Rightarrow> layer \<Rightarrow> world \<Rightarrow> ((error + unit) \<times> world) option"
where
  "process_layer m layerfeed num_layers index l w0 =
     (let w1 = system_print [S ''Starting to process layer '', N (int index)] w0;
          w2 = emit (PublishLayers num_layers index) w1;
          w3 = log_msg [S ''Waiting for beam power low''] w2
      in and_then (wait_for_beam_power_low m)
           (\<lambda>_ w.
              let w4 = log_msg [S ''Recoat cycle. Layer '', N (int index)] w;
                  (recoated, w5) = call (RecoatCycle layerfeed) (recoat_cycle m) w4
              in if \<not> recoated then Some (logfatal m [S ''Unable to complete Layerfeed.''] w5)
                 else (let (is_on, w6) = call BeamIsOn (beam_is_on m) w5
                       in if \<not> is_on then
                            (let w7 = log_msg [S ''Beam was off after recoating. Turning it on!''] w6;
                                 (started, w8) = call (RestartHV 60) (restartHV m) w7
                             in if \<not> started
                                then Some (logfatal m [S ''Timeout waiting for beam on''] w8)
                                else Some (expose_layer m index l 0 w8))
                          else Some (expose_layer m index l 0 w6)))
           w3)"

fun layers_loop ::
  "machine \<Rightarrow> (string \<times> real) list \<Rightarrow> nat \<Rightarrow> nat \<Rightarrow> layer list \<Rightarrow> world \<Rightarrow> ((error + unit) \<times> world) option"
where
  "layers_loop m layerfeed num_layers index [] w = Some (Inr (), w)"
| "layers_loop m layerfeed num_layers index (l # ls) w =
     and_then (process_layer m layerfeed num_layers index l)
       (\<lambda>_. layers_loop m layerfeed num_layers (Suc index) ls) w"

text \<open>Lines 241 to 250.\<close>

definition teardown :: "machine \<Rightarrow> world \<Rightarrow> ((error + unit) \<times> world) option" where
  "teardown m w0 =
     (let (_, w1) = call ClearExposureQueue (clear_exposure_queue m) w0;
          w2 = log_msg [S ''Waiting for beam power low''] w1
      in and_then (wait_for_beam_power_low m)
           (\<lambda>_ w.
              let w3 = log_msg [S ''Turning off the beam''] w;
                  w4 = emit BeamOff w3;
                  w5 = log_msg [S ''Turning off the PSU''] w4;
                  w6 = emit PowerOff w5;
                  w7 = log_msg [S ''Build finished''] w6
              in Some (Inr (), w7))
           w2)"

text \<open>The whole script, run on the build info of the container (lines 61 to 250).\<close>

definition build_script :: "machine \<Rightarrow> build_info \<Rightarrow> world \<Rightarrow> ((error + unit) \<times> world) option" where
  "build_script m bi w0 =
     (let num_layers = length (layers bi);
          layerfeed = (case layerFeed bi of None \<Rightarrow> [] | Some lf \<Rightarrow> lf);
          w1 = emit (PublishLayers num_layers 0) w0;
          w2 = emit (AddSubscription jump_safe_input) w1;
          w3 = emit (AddSubscription heat_balance_input) w2;
          w4 = emit (PublishField ''Parameters'' ''Name'' ''PreHeatRepetitions'' ''repetitions'' [N 0]) w3;
          w5 = emit (PublishField ''Parameters'' ''Name'' ''PostHeatRepetitions'' ''repetitions'' [N 0]) w4
      in and_then (start_heating m (startHeat bi))
           (\<lambda>_. and_then
                  (\<lambda>w. layers_loop m layerfeed num_layers 1 (layers bi)
                         (system_print [S ''OBF has '', N (int num_layers), S '' layers.''] w))
                  (\<lambda>_. teardown m))
           w5)"

section \<open>The converter\<close>

text \<open>
  The layer construction of \<^verbatim>\<open>convert\<close> (lines 344 to 386 of \<^verbatim>\<open>obf/cli.py\<close>). An entry
  of \<^verbatim>\<open>build.build.files\<close> is one file or a list of files. \<^verbatim>\<open>pathlib.PurePath(f).name\<close>
  is a library function and a parameter \<open>name\<close> of the model.
\<close>

datatype boss_layer = File string | Files "string list"

definition file_dict :: "(string \<Rightarrow> string) \<Rightarrow> string \<Rightarrow> obp" where
  "file_dict name f = \<lparr>obp_file = ''obp/'' @ name f, repetitions = 1\<rparr>"

text \<open>Lines 372 to 384: the layer built from one entry. The dictionary has no spatterSafe key.\<close>

definition new_layer :: "(string \<Rightarrow> string) \<Rightarrow> obp \<Rightarrow> obp \<Rightarrow> boss_layer \<Rightarrow> layer" where
  "new_layer name jump_safe_dict heat_balance_dict boss_layer =
     (let files = (case boss_layer of Files fs \<Rightarrow> fs | File f \<Rightarrow> [f])
      in \<lparr>jumpSafe = Some [jump_safe_dict], spatterSafe = None,
          melt = map (file_dict name) files, heatBalance = Some [heat_balance_dict]\<rparr>)"

text \<open>Lines 368 to 386: the \<^verbatim>\<open>for\<close> loop with its \<^verbatim>\<open>break\<close>.\<close>

fun for_files :: "(boss_layer \<Rightarrow> layer) \<Rightarrow> int \<Rightarrow> boss_layer list \<Rightarrow> layer list \<Rightarrow> layer list" where
  "for_files mk n [] ls = ls"
| "for_files mk n (boss_layer # rest) ls =
     (if int (length ls) \<ge> n then ls else for_files mk n rest (ls @ [mk boss_layer]))"

text \<open>Line 367: the \<^verbatim>\<open>while\<close> loop; \<open>None\<close> when it does not end.\<close>

partial_function (option) while_layers ::
  "(boss_layer \<Rightarrow> layer) \<Rightarrow> int \<Rightarrow> boss_layer list \<Rightarrow> layer list \<Rightarrow> layer list option"
where
  "while_layers mk n files ls =
     (if int (length ls) < n then while_layers mk n files (for_files mk n files ls) else Some ls)"

text \<open>Lines 344 to 352: the jumpSafe and heatBalance pattern of every layer.\<close>

definition heat_dict :: "(string \<Rightarrow> string) \<Rightarrow> obp \<Rightarrow> obp" where
  "heat_dict name boss_heat =
     \<lparr>obp_file = ''obp/'' @ name (obp_file boss_heat), repetitions = repetitions boss_heat\<rparr>"

text \<open>
  The layers of \<^verbatim>\<open>build_info\<close>, from \<^verbatim>\<open>build.preheat\<close>, \<^verbatim>\<open>build.postheat\<close>,
  \<^verbatim>\<open>build.build.layers\<close> and \<^verbatim>\<open>build.build.files\<close>.
\<close>

definition convert_layers ::
  "(string \<Rightarrow> string) \<Rightarrow> obp \<Rightarrow> obp \<Rightarrow> int \<Rightarrow> boss_layer list \<Rightarrow> layer list option"
where
  "convert_layers name boss_preheat boss_postheat n files =
     while_layers (new_layer name (heat_dict name boss_preheat) (heat_dict name boss_postheat))
       n files []"

section \<open>Observations of a run\<close>

text \<open>The pattern groups of every exposure step submitted so far, in order.\<close>

fun submission :: "event \<Rightarrow> (obp list \<times> obp list \<times> obp list \<times> obp list) option" where
  "submission (StartProcessStepExposures js ss ml hb) = Some (js, ss, ml, hb)"
| "submission _ = None"

definition submitted :: "world \<Rightarrow> (obp list \<times> obp list \<times> obp list \<times> obp list) list" where
  "submitted w = List.map_filter submission (trace w)"

text \<open>The fresh powder flags of every arc trip recovery asked for so far.\<close>

fun recovery_flag :: "event \<Rightarrow> bool option option" where
  "recovery_flag (RestartAfterArcTrip fresh t) = Some fresh"
| "recovery_flag _ = None"

definition recovery_flags :: "world \<Rightarrow> bool option list" where
  "recovery_flags w = List.map_filter recovery_flag (trace w)"

text \<open>The messages published so far.\<close>

fun published :: "event \<Rightarrow> message option" where
  "published (PublishField a b c d message) = Some message"
| "published _ = None"

definition activities :: "world \<Rightarrow> message list" where
  "activities w = List.map_filter published (trace w)"

text \<open>
  The world after \<open>k\<close> rounds of \<^verbatim>\<open>wait\<close>, each an evaluation of the predicate followed
  by a sleep.
\<close>

fun polls :: "(world \<Rightarrow> (error + bool) \<times> world) \<Rightarrow> real \<Rightarrow> nat \<Rightarrow> world \<Rightarrow> world" where
  "polls predicate interval 0 w = w"
| "polls predicate interval (Suc k) w =
     polls predicate interval k (system_sleep interval (snd (predicate w)))"

text \<open>The published messages that announce an exposure attempt; they show the retry counter.\<close>

definition exposing_logs :: "world \<Rightarrow> message list" where
  "exposing_logs w =
     filter (\<lambda>message. take 1 message = [S ''Exposing OBP files of layer '']) (activities w)"


text \<open>The error raised when the beam current does not drop.\<close>

definition beam_power_abort :: error where
  "beam_power_abort = Error [S ''Build Aborted: BeamPowerLow condition timed out'']"

text \<open>The first \<open>k\<close> entries of the files list repeated without end.\<close>

definition cycle_files :: "'a list \<Rightarrow> nat \<Rightarrow> 'a list" where
  "cycle_files files k = map (\<lambda>i. files ! (i mod length files)) [0..<k]"

text \<open>The error raised when the retry bound is exceeded.\<close>

definition retry_abort :: error where
  "retry_abort = Error [S ''Build Error: '', S ''Maximum retry count exceeded!'']"

text \<open>Sample inputs: an empty world, a layer, and machines with constant answers.\<close>

definition w0 :: world where
  "w0 = \<lparr>clock = 0, trace = [], newPowderLayer = None\<rparr>"

definition constant_machine :: "int \<Rightarrow> int \<Rightarrow> real \<Rightarrow> machine" where
  "constant_machine err_id reps hv =
     \<lparr>beam_is_on = (\<lambda>_. True), restartHV = (\<lambda>_. True), get_temperature = (\<lambda>_. Some 1000),
      clear_exposure_queue = (\<lambda>_. True), recoat_cycle = (\<lambda>_. True),
      start_process_step_exposures = (\<lambda>_. err_id), restart_after_arc_trip = (\<lambda>_. True),
      get_hv_current = (\<lambda>_. Some hv), get_field = (\<lambda>_. reps)\<rparr>"

text \<open>
  A machine whose parameter answers depend on the topic asked for, and one whose arc
  trip recovery fails.
\<close>

definition topic_machine :: "int \<Rightarrow> int \<Rightarrow> int \<Rightarrow> machine" where
  "topic_machine err_id pre post =
     (constant_machine err_id 0 0)
       \<lparr>get_field := (\<lambda>v. if last (trace v) = GetField jump_safe_input ''repetitions''
                           then pre else post)\<rparr>"

definition failing_recovery :: "int \<Rightarrow> machine" where
  "failing_recovery err_id = (constant_machine err_id 0 0)\<lparr>restart_after_arc_trip := (\<lambda>_. False)\<rparr>"

definition sample_layer :: layer where
  "sample_layer =
     \<lparr>jumpSafe = Some [\<lparr>obp_file = ''obp/pre.obp'', repetitions = 2\<rparr>],
      spatterSafe = Some [\<lparr>obp_file = ''obp/spatter.obp'', repetitions = 1\<rparr>],
      melt = [\<lparr>obp_file = ''obp/melt.obp'', repetitions = 1\<rparr>],
      heatBalance = Some [\<lparr>obp_file = ''obp/post.obp'', repetitions = 5\<rparr>]\<rparr>"

definition sample_build :: build_info where
  "sample_build =
     \<lparr>startHeat = \<lparr>heat_file = ''obp/heat.obp'', temperatureSensor = ''Sensor1'',
                   targetTemperature = 800, heat_timeout = 600\<rparr>,
      layerFeed = None, layers = [sample_layer]\<rparr>"

section \<open>Properties of the exposure attempts\<close>

lemma constant_machine_sel [simp]:
  "beam_is_on (constant_machine e r hv) = (\<lambda>_. True)"
  "restartHV (constant_machine e r hv) = (\<lambda>_. True)"
  "get_temperature (constant_machine e r hv) = (\<lambda>_. Some 1000)"
  "clear_exposure_queue (constant_machine e r hv) = (\<lambda>_. True)"
  "recoat_cycle (constant_machine e r hv) = (\<lambda>_. True)"
  "start_process_step_exposures (constant_machine e r hv) = (\<lambda>_. e)"
  "restart_after_arc_trip (constant_machine e r hv) = (\<lambda>_. True)"
  "get_hv_current (constant_machine e r hv) = (\<lambda>_. Some hv)"
  "get_field (constant_machine e r hv) = (\<lambda>_. r)"
  by (simp_all add: constant_machine_def)

lemma submitted_emit [simp]:
  "submitted (emit e w) = submitted w @ (case submission e of None \<Rightarrow> [] | Some g \<Rightarrow> [g])"
  by (simp add: submitted_def emit_def List.map_filter_def split: option.splits)

lemma submitted_update [simp]:
  "submitted (w\<lparr>newPowderLayer := x\<rparr>) = submitted w"
  "submitted (w\<lparr>clock := c\<rparr>) = submitted w"
  by (simp_all add: submitted_def)

lemma recovery_flags_emit [simp]:
  "recovery_flags (emit e w) =
     recovery_flags w @ (case recovery_flag e of None \<Rightarrow> [] | Some g \<Rightarrow> [g])"
  by (simp add: recovery_flags_def emit_def List.map_filter_def split: option.splits)

lemma recovery_flags_update [simp]:
  "recovery_flags (w\<lparr>newPowderLayer := x\<rparr>) = recovery_flags w"
  "recovery_flags (w\<lparr>clock := c\<rparr>) = recovery_flags w"
  by (simp_all add: recovery_flags_def)

lemma newPowderLayer_emit [simp]: "newPowderLayer (emit e w) = newPowderLayer w"
  by (simp add: emit_def)

lemmas host_defs = call_def log_msg_def system_print_def logfatal_def Let_def

lemma submitted_submit:
  "submitted (snd (submit m index l rc w)) = submitted w @
     [(jumpSafePatterns (fst (read_jump_safe_reps m w)) l, spatterSafePatterns l, meltPatterns l,
       heatBalancePatterns (fst (read_heat_balance_reps m (snd (read_jump_safe_reps m w)))) l)]"
  by (simp add: submit_def read_jump_safe_reps_def read_heat_balance_reps_def host_defs
      split: prod.splits)

lemma submitted_classify [simp]: "submitted (snd (classify e w)) = submitted w"
  by (simp add: classify_def host_defs)

lemma submitted_logfatal [simp]: "submitted (snd (logfatal m msg w)) = submitted w"
  by (simp add: host_defs)

lemma submitted_recover [simp]: "submitted (snd (recover m e w)) = submitted w"
  by (simp add: recover_def host_defs)

lemma submitted_handle [simp]: "submitted (snd (handle m e rc w)) = submitted w"
proof -
  obtain d w1 where c: "classify e w = (d, w1)" by (cases "classify e w")
  obtain r w2 where r: "recover m e w1 = (r, w2)" by (cases "recover m e w1")
  have 1: "submitted w1 = submitted w" using submitted_classify[of e w] c by simp
  have 2: "submitted w2 = submitted w1" using submitted_recover[of m e w1] r by simp
  show ?thesis
    using 1 2 by (cases r) (simp_all add: handle_def c r Let_def)
qed

lemma submitted_attempt:
  "length (submitted (snd (attempt m index l rc w))) = Suc (length (submitted w))"
proof -
  obtain e w1 where s: "submit m index l rc w = (e, w1)" by (cases "submit m index l rc w")
  have "length (submitted w1) = Suc (length (submitted w))"
    using submitted_submit[of m index l rc w] s by simp
  then show ?thesis by (simp add: attempt_def s)
qed

text \<open>Every pass through the loop submits once, and the counter bounds the passes.\<close>

lemma submitted_expose_layer:
  "rc \<le> maxRetryCount \<Longrightarrow>
   length (submitted (snd (expose_layer m index l rc w)))
     \<le> length (submitted w) + (Suc maxRetryCount - rc)"
proof (induction m index l rc w rule: expose_layer.induct)
  case (1 m index l rc w)
  obtain r w' where a: "attempt m index l rc w = (r, w')" by (cases "attempt m index l rc w")
  have len: "length (submitted w') = Suc (length (submitted w))"
    using submitted_attempt[of m index l rc w] a by simp
  show ?case
  proof (cases r)
    case (Inl e)
    then show ?thesis using a len "1.prems" by (simp add: expose_layer.simps)
  next
    case (Inr b)
    obtain d rc' where b: "b = (d, rc')" by (cases b)
    show ?thesis
    proof (cases d)
      case True
      then show ?thesis using a Inr b len "1.prems" by (simp add: expose_layer.simps)
    next
      case False
      have rc': "rc' = rc + 1 \<and> rc' \<le> maxRetryCount"
        using attempt_not_done[of m index l rc w rc' w'] a Inr b False by simp
      have "length (submitted (snd (expose_layer m index l rc' w')))
              \<le> length (submitted w') + (Suc maxRetryCount - rc')"
        using "1.IH"[of r w' b d rc'] a Inr b False rc' by simp
      moreover have "expose_layer m index l rc w = expose_layer m index l rc' w'"
        using a Inr b False by (simp add: expose_layer.simps[of m index l rc w])
      ultimately have "length (submitted (snd (expose_layer m index l rc w)))
          \<le> Suc (length (submitted w)) + (Suc maxRetryCount - Suc rc)"
        using len rc' by simp
      also have "\<dots> = length (submitted w) + (Suc maxRetryCount - rc)"
        using "1.prems" by simp
      finally show ?thesis .
    qed
  qed
qed

lemma handle_fault:
  assumes "err_id \<noteq> 0" "err_id \<noteq> 4"
    and "fst (recover m err_id (snd (classify err_id w))) = Inr ()"
  shows "fst (handle m err_id rc w) =
           (if rc + 1 > maxRetryCount then Inl retry_abort else Inr (False, rc + 1))"
proof -
  obtain d w1 where c: "classify err_id w = (d, w1)" by (cases "classify err_id w")
  obtain w2 where r: "recover m err_id w1 = (Inr (), w2)"
    using assms(3) c by (cases "recover m err_id w1") auto
  have d: "\<not> d" using c assms(1,2) by (auto simp: classify_def split: if_splits)
  show ?thesis
    using d by (simp add: handle_def c r Let_def logfatal_def retry_abort_def split: prod.splits)
qed

lemma recover_ok:
  "(\<And>w. restart_after_arc_trip m w) \<Longrightarrow> fst (recover m e w) = Inr ()"
  by (simp add: recover_def host_defs split: prod.splits)

lemma submit_answer: "\<exists>w'. fst (submit m index l rc w) = start_process_step_exposures m w'"
  by (auto simp: submit_def call_def Let_def split: prod.splits)

lemma expose_layer_abort:
  "attempt m index l rc w = (Inl e, w') \<Longrightarrow> expose_layer m index l rc w = (Inl e, w')"
  by (simp add: expose_layer.simps[of m index l rc w])


lemma expose_layer_retry:
  "attempt m index l rc w = (Inr (False, rc'), w') \<Longrightarrow>
   expose_layer m index l rc w = expose_layer m index l rc' w'"
  by (simp add: expose_layer.simps[of m index l rc w])

text \<open>A machine that never completes a layer and always recovers exhausts the retries.\<close>

lemma expose_layer_exhaust:
  assumes f: "\<And>w. start_process_step_exposures m w \<noteq> 0 \<and> start_process_step_exposures m w \<noteq> 4"
    and r: "\<And>w. restart_after_arc_trip m w"
  shows "rc \<le> maxRetryCount \<Longrightarrow>
     fst (expose_layer m index l rc w) = Inl retry_abort \<and>
     length (submitted (snd (expose_layer m index l rc w)))
       = length (submitted w) + (Suc maxRetryCount - rc)"
proof (induction k \<equiv> "maxRetryCount - rc" arbitrary: rc w)
  case 0
  then have rc: "rc = maxRetryCount" by simp
  obtain e w1 where s: "submit m index l rc w = (e, w1)" by (cases "submit m index l rc w")
  have e: "e \<noteq> 0" "e \<noteq> 4" using submit_answer[of m index l rc w] f s by auto
  have "fst (handle m e rc w1) = Inl retry_abort"
    using handle_fault[OF e, of m w1 rc] recover_ok[of m, OF r] rc by simp
  then obtain w2 where a: "attempt m index l rc w = (Inl retry_abort, w2)"
    by (cases "handle m e rc w1") (simp add: attempt_def s)
  show ?case
    using a submitted_attempt[of m index l rc w] rc unfolding expose_layer_abort[OF a] by simp
next
  case (Suc k)
  then have rc: "rc < maxRetryCount" by simp
  obtain e w1 where s: "submit m index l rc w = (e, w1)" by (cases "submit m index l rc w")
  have e: "e \<noteq> 0" "e \<noteq> 4" using submit_answer[of m index l rc w] f s by auto
  have "fst (handle m e rc w1) = Inr (False, rc + 1)"
    using handle_fault[OF e, of m w1 rc] recover_ok[of m, OF r] rc by simp
  then obtain w2 where a: "attempt m index l rc w = (Inr (False, rc + 1), w2)"
    by (cases "handle m e rc w1") (simp add: attempt_def s)
  have len: "length (submitted w2) = Suc (length (submitted w))"
    using a submitted_attempt[of m index l rc w] by simp
  have "k = maxRetryCount - (rc + 1)" using Suc.hyps(2) by simp
  from Suc.hyps(1)[OF this, of w2] rc
  show ?case unfolding expose_layer_retry[OF a] len by simp
qed

text \<open>
  C1. The retries of a layer are bounded. A layer started with the counter at 0 submits
  at most 11 exposure steps, whatever the machine answers. After a failed attempt (an
  \<^verbatim>\<open>err_id\<close> other than 0 and 4, recovery succeeding) the counter is one higher, and once
  it exceeds 10 the script raises \<^verbatim>\<open>Build Error: Maximum retry count exceeded!\<close>. An error
  raised in an attempt ends the loop in the world of that attempt, so nothing is
  submitted after it. On a machine that never completes the layer and always recovers,
  the loop ends in that error after exactly 11 submissions.
\<close>

theorem retry_bound:
  "length (submitted (snd (expose_layer m index l 0 w))) \<le> length (submitted w) + 11
   \<and> (err_id \<noteq> 0 \<and> err_id \<noteq> 4 \<and> fst (recover m err_id (snd (classify err_id w))) = Inr ()
        \<longrightarrow> fst (handle m err_id retryCount w) =
             (if retryCount + 1 > 10
              then Inl (Error [S ''Build Error: '', S ''Maximum retry count exceeded!''])
              else Inr (False, retryCount + 1)))
   \<and> (fst (attempt m index l retryCount w) = Inl e
        \<longrightarrow> expose_layer m index l retryCount w = (Inl e, snd (attempt m index l retryCount w)))
   \<and> ((\<forall>w'. start_process_step_exposures m w' \<noteq> 0 \<and> start_process_step_exposures m w' \<noteq> 4)
        \<and> (\<forall>w'. restart_after_arc_trip m w')
        \<longrightarrow> fst (expose_layer m index l 0 w)
              = Inl (Error [S ''Build Error: '', S ''Maximum retry count exceeded!''])
            \<and> length (submitted (snd (expose_layer m index l 0 w))) = length (submitted w) + 11)"
proof (intro conjI impI)
  show "length (submitted (snd (expose_layer m index l 0 w))) \<le> length (submitted w) + 11"
    using submitted_expose_layer[of 0 m index l w] by (simp add: maxRetryCount_def)
next
  assume "err_id \<noteq> 0 \<and> err_id \<noteq> 4 \<and> fst (recover m err_id (snd (classify err_id w))) = Inr ()"
  then show "fst (handle m err_id retryCount w) =
     (if retryCount + 1 > 10
      then Inl (Error [S ''Build Error: '', S ''Maximum retry count exceeded!''])
      else Inr (False, retryCount + 1))"
    using handle_fault[of err_id m w retryCount] by (simp add: maxRetryCount_def retry_abort_def)
next
  assume "fst (attempt m index l retryCount w) = Inl e"
  then have "attempt m index l retryCount w = (Inl e, snd (attempt m index l retryCount w))"
    by (cases "attempt m index l retryCount w") simp
  then show "expose_layer m index l retryCount w = (Inl e, snd (attempt m index l retryCount w))"
    by (rule expose_layer_abort)
next
  assume a: "(\<forall>w'. start_process_step_exposures m w' \<noteq> 0 \<and> start_process_step_exposures m w' \<noteq> 4)
        \<and> (\<forall>w'. restart_after_arc_trip m w')"
  then have *: "fst (expose_layer m index l 0 w) = Inl retry_abort \<and>
     length (submitted (snd (expose_layer m index l 0 w)))
       = length (submitted w) + (Suc maxRetryCount - 0)"
    by (intro expose_layer_exhaust) simp_all
  from * show "fst (expose_layer m index l 0 w)
      = Inl (Error [S ''Build Error: '', S ''Maximum retry count exceeded!''])"
    by (simp add: retry_abort_def)
  from * show "length (submitted (snd (expose_layer m index l 0 w))) = length (submitted w) + 11"
    by (simp add: maxRetryCount_def)
qed

theorem retry_bound_witness:
  "fst (expose_layer (constant_machine 3 0 0) 1 sample_layer 0 w0)
     = Inl (Error [S ''Build Error: '', S ''Maximum retry count exceeded!''])
   \<and> length (submitted (snd (expose_layer (constant_machine 3 0 0) 1 sample_layer 0 w0))) = 11
   \<and> fst (handle (constant_machine 3 0 0) 3 2 w0) = Inr (False, 3)
   \<and> fst (handle (constant_machine 3 0 0) 3 10 w0)
     = Inl (Error [S ''Build Error: '', S ''Maximum retry count exceeded!''])
   \<and> expose_layer (constant_machine 3 0 0) 1 sample_layer 10 w0
     = (Inl (Error [S ''Build Error: '', S ''Maximum retry count exceeded!'']),
        snd (attempt (constant_machine 3 0 0) 1 sample_layer 10 w0))"
proof -
  let ?m = "constant_machine 3 0 0"
  let ?e = "Error [S ''Build Error: '', S ''Maximum retry count exceeded!'']"
  have r: "fst (recover ?m 3 (snd (classify 3 w0))) = Inr ()"
    by (simp add: recover_ok)
  have a: "fst (attempt ?m 1 sample_layer 10 w0) = Inl ?e"
    by (simp add: attempt_def submit_def read_jump_safe_reps_def read_heat_balance_reps_def
        handle_def classify_def recover_def host_defs maxRetryCount_def split: prod.splits)
  show ?thesis
    using retry_bound[of ?m 1 sample_layer w0 3 2 ?e] retry_bound[of ?m 1 sample_layer w0 3 10 ?e] r a
    by (simp add: submitted_def w0_def List.map_filter_def)
qed

lemma observed_w0 [simp]:
  "submitted w0 = []" "recovery_flags w0 = []" "activities w0 = []"
  by (simp_all add: submitted_def recovery_flags_def activities_def w0_def List.map_filter_def)

lemma flags_handle:
  "err_id \<in> {1, 2, 3, 4} \<Longrightarrow>
   recovery_flags (snd (handle m err_id rc w)) = recovery_flags w @ [Some (err_id = 3)]"
  by (auto simp: handle_def classify_def recover_def host_defs split: prod.splits sum.splits)

lemma flags_submit: "recovery_flags (snd (submit m index l rc w)) = recovery_flags w"
  by (simp add: submit_def read_jump_safe_reps_def read_heat_balance_reps_def host_defs
      split: prod.splits)

text \<open>
  C3. In an attempt that the machine reports as faulted with \<^verbatim>\<open>err_id\<close> 1, 2, 3 or 4,
  exactly one arc trip recovery is asked for, and its fresh powder flag is true exactly
  when the \<^verbatim>\<open>err_id\<close> is 3 (melt); for 1, 2 and 4 it is false.
\<close>

theorem fresh_powder_flag:
  "fst (submit m index l retryCount w) \<in> {1, 2, 3, 4} \<longrightarrow>
     recovery_flags (snd (attempt m index l retryCount w))
       = recovery_flags w @ [Some (fst (submit m index l retryCount w) = 3)]"
proof
  assume e: "fst (submit m index l retryCount w) \<in> {1, 2, 3, 4}"
  obtain err_id w1 where s: "submit m index l retryCount w = (err_id, w1)"
    by (cases "submit m index l retryCount w")
  have "recovery_flags w1 = recovery_flags w"
    using flags_submit[of m index l retryCount w] s by simp
  then show "recovery_flags (snd (attempt m index l retryCount w))
       = recovery_flags w @ [Some (fst (submit m index l retryCount w) = 3)]"
    using flags_handle[of err_id m retryCount w1] e s by (simp add: attempt_def)
qed

theorem fresh_powder_flag_witness:
  "recovery_flags (snd (attempt (constant_machine 3 0 0) 1 sample_layer 0 w0)) = [Some True]
   \<and> recovery_flags (snd (attempt (constant_machine 1 0 0) 1 sample_layer 0 w0)) = [Some False]
   \<and> recovery_flags (snd (attempt (constant_machine 2 0 0) 1 sample_layer 0 w0)) = [Some False]
   \<and> recovery_flags (snd (attempt (constant_machine 4 0 0) 1 sample_layer 0 w0)) = [Some False]"
  using fresh_powder_flag[of "constant_machine 3 0 0" 1 sample_layer 0 w0]
    fresh_powder_flag[of "constant_machine 1 0 0" 1 sample_layer 0 w0]
    fresh_powder_flag[of "constant_machine 2 0 0" 1 sample_layer 0 w0]
    fresh_powder_flag[of "constant_machine 4 0 0" 1 sample_layer 0 w0]
  by (simp add: submit_def read_jump_safe_reps_def read_heat_balance_reps_def host_defs
      constant_machine_def split: prod.splits)

text \<open>
  C4. The jumpSafe group submitted in an attempt holds one pattern for every configured
  jumpSafe pattern of the layer, with the same file, and with the pattern's own
  repetitions plus the value the host gives in this attempt for the field
  \<^verbatim>\<open>repetitions\<close> of the topic \<^verbatim>\<open>PreHeatRepetitions\<close>. With the value 7 and a pattern
  of 2 repetitions, 9 are submitted.
\<close>

theorem jumpSafe_additive:
  "(\<exists>ss ml hb.
      submitted (snd (attempt m index l retryCount w)) = submitted w @
        [(map (\<lambda>p. \<lparr>obp_file = obp_file p,
                    repetitions =
                      get_field m
                        (emit (GetField (Topic ''Parameters'' ''Name'' ''PreHeatRepetitions'')
                           ''repetitions'') w)
                      + repetitions p\<rparr>)
            (case jumpSafe l of None \<Rightarrow> [] | Some obps \<Rightarrow> obps),
          ss, ml, hb)])
   \<and> ((\<forall>v. get_field m
              (emit (GetField (Topic ''Parameters'' ''Name'' ''PreHeatRepetitions'')
                 ''repetitions'') v) = 7)
        \<and> jumpSafe l = Some [\<lparr>obp_file = f, repetitions = 2\<rparr>]
        \<longrightarrow> (\<exists>ss ml hb.
              submitted (snd (attempt m index l retryCount w)) = submitted w @
                [([\<lparr>obp_file = f, repetitions = 9\<rparr>], ss, ml, hb)]))"
proof -
  obtain e w1 where s: "submit m index l retryCount w = (e, w1)"
    by (cases "submit m index l retryCount w")
  have "submitted (snd (attempt m index l retryCount w)) = submitted w1"
    by (simp add: attempt_def s)
  also have "\<dots> = submitted (snd (submit m index l retryCount w))"
    by (simp add: s)
  finally have eq: "submitted (snd (attempt m index l retryCount w)) = submitted w @
     [(jumpSafePatterns (fst (read_jump_safe_reps m w)) l, spatterSafePatterns l, meltPatterns l,
       heatBalancePatterns (fst (read_heat_balance_reps m (snd (read_jump_safe_reps m w)))) l)]"
    by (simp add: submitted_submit)
  have r: "fst (read_jump_safe_reps m w)
      = get_field m (emit (GetField (Topic ''Parameters'' ''Name'' ''PreHeatRepetitions'')
          ''repetitions'') w)"
    by (simp add: read_jump_safe_reps_def call_def jump_safe_input_def)
  show ?thesis
    unfolding eq r by (auto simp: jumpSafePatterns_def split: option.splits)
qed

theorem jumpSafe_additive_witness:
  "\<exists>ss ml hb. submitted (snd (attempt (topic_machine 0 7 3) 1 sample_layer 0 w0))
     = [([\<lparr>obp_file = ''obp/pre.obp'', repetitions = 9\<rparr>], ss, ml, hb)]"
  using jumpSafe_additive[of "topic_machine 0 7 3" 1 sample_layer 0 w0 "''obp/pre.obp''"]
  by (simp add: topic_machine_def jump_safe_input_def sample_layer_def emit_def)

text \<open>
  C5. The claim is that the PreHeatRepetitions value replaces the repetitions of every
  jumpSafe pattern, as the comment in the script says. The script adds: with the value 7
  and a configured pattern of 2 repetitions, the jumpSafe pattern submitted has 9
  repetitions, not 7.
\<close>

theorem jumpSafe_not_replaced:
  "map (\<lambda>(js, ss, ml, hb). map repetitions js)
     (submitted (snd (submit (constant_machine 0 7 0) 1 sample_layer 0 w0))) = [[9]]
   \<and> map repetitions (the (jumpSafe sample_layer)) = [2]
   \<and> fst (read_jump_safe_reps (constant_machine 0 7 0) w0) = 7"
  by (simp add: submitted_submit read_jump_safe_reps_def read_heat_balance_reps_def host_defs
      constant_machine_def sample_layer_def jumpSafePatterns_def)

text \<open>
  C6. The claim is that the spatterSafe group submitted holds the layer's configured
  spatterSafe patterns. The script never fills the group: for a layer with one
  spatterSafe pattern the group submitted is empty, and the layer's melt pattern is
  submitted twice in the melt group.
\<close>

theorem spatterSafe_not_submitted:
  "map (\<lambda>(js, ss, ml, hb). (ss, ml))
     (submitted (snd (submit (constant_machine 0 0 0) 1 sample_layer 0 w0)))
     = [([], [\<lparr>obp_file = ''obp/melt.obp'', repetitions = 1\<rparr>,
              \<lparr>obp_file = ''obp/melt.obp'', repetitions = 1\<rparr>])]
   \<and> spatterSafe sample_layer = Some [\<lparr>obp_file = ''obp/spatter.obp'', repetitions = 1\<rparr>]"
  by (simp add: submitted_submit read_jump_safe_reps_def read_heat_balance_reps_def host_defs
      constant_machine_def sample_layer_def spatterSafePatterns_def meltPatterns_def)

text \<open>
  C7. The claim is that the spatterSafe branch changes nothing, so that a layer with a
  spatterSafe list has every configured melt pattern submitted once. The branch inserts
  the melt patterns into the melt table, and the melt branch inserts them again: for a
  layer with a spatterSafe list and one melt pattern, the melt group submitted holds the
  pattern twice; without the list it holds it once.
\<close>

theorem spatterSafe_branch_doubles_melt:
  "map (\<lambda>(js, ss, ml, hb). ml)
     (submitted (snd (attempt (constant_machine 0 0 0) 1 sample_layer 0 w0)))
     = [[\<lparr>obp_file = ''obp/melt.obp'', repetitions = 1\<rparr>,
         \<lparr>obp_file = ''obp/melt.obp'', repetitions = 1\<rparr>]]
   \<and> map (\<lambda>(js, ss, ml, hb). ml)
     (submitted (snd (attempt (constant_machine 0 0 0) 1 (sample_layer\<lparr>spatterSafe := None\<rparr>) 0 w0)))
     = [[\<lparr>obp_file = ''obp/melt.obp'', repetitions = 1\<rparr>]]
   \<and> melt sample_layer = [\<lparr>obp_file = ''obp/melt.obp'', repetitions = 1\<rparr>]
   \<and> spatterSafe sample_layer \<noteq> None"
proof -
  have "submitted (snd (attempt m index l rc w0)) = submitted (snd (submit m index l rc w0))"
    for m index l rc
    by (cases "submit m index l rc w0") (simp add: attempt_def)
  then show ?thesis
    by (simp add: submitted_submit sample_layer_def meltPatterns_def)
qed

section \<open>Properties of waiting\<close>

lemma polls_shift:
  "polls p i j (system_sleep i (snd (p w))) = polls p i (Suc j) w"
  by simp

lemma wait_loop_stop:
  "(\<forall>j<k. fst (p (polls p i j w)) = Inr False) \<Longrightarrow> fst (p (polls p i k w)) \<noteq> Inr False \<Longrightarrow>
   (\<forall>j. 1 \<le> j \<and> j \<le> k \<longrightarrow> os_time (polls p i j w) < d) \<Longrightarrow>
   wait_loop p i d w = Some (p (polls p i k w))"
proof (induction k arbitrary: w)
  case 0
  obtain r w1 where pw: "p w = (r, w1)" by (cases "p w")
  show ?case
  proof (cases r)
    case (Inl e)
    then show ?thesis using pw by (subst wait_loop.simps) simp
  next
    case (Inr b)
    then have "b" using 0(2) pw by simp
    then show ?thesis using pw Inr by (subst wait_loop.simps) simp
  qed
next
  case (Suc k)
  obtain w1 where pw: "p w = (Inr False, w1)"
    using Suc.prems(1)[rule_format, of 0] by (cases "p w") simp
  let ?w2 = "system_sleep i w1"
  have w2: "polls p i j ?w2 = polls p i (Suc j) w" for j by (simp add: pw)
  have lt: "os_time ?w2 < d" using Suc.prems(3)[rule_format, of 1] by (simp add: pw)
  have "wait_loop p i d ?w2 = Some (p (polls p i k ?w2))"
  proof (rule Suc.IH)
    show "\<forall>j<k. fst (p (polls p i j ?w2)) = Inr False"
      using Suc.prems(1) unfolding w2 by auto
    show "fst (p (polls p i k ?w2)) \<noteq> Inr False"
      using Suc.prems(2) unfolding w2 .
    show "\<forall>j. 1 \<le> j \<and> j \<le> k \<longrightarrow> os_time (polls p i j ?w2) < d"
      using Suc.prems(3) unfolding w2 by auto
  qed
  then show ?case
    using lt unfolding w2 by (subst wait_loop.simps) (simp add: pw Let_def)
qed

lemma wait_loop_timeout:
  "(\<forall>j\<le>k. fst (p (polls p i j w)) = Inr False) \<Longrightarrow>
   (\<forall>j. 1 \<le> j \<and> j \<le> k \<longrightarrow> os_time (polls p i j w) < d) \<Longrightarrow>
   d \<le> os_time (polls p i (Suc k) w) \<Longrightarrow>
   wait_loop p i d w = Some (Inr False, polls p i (Suc k) w)"
proof (induction k arbitrary: w)
  case 0
  obtain w1 where pw: "p w = (Inr False, w1)"
    using 0(1) by (cases "p w") simp
  show ?case using 0(3) by (subst wait_loop.simps) (simp add: pw Let_def)
next
  case (Suc k)
  obtain w1 where pw: "p w = (Inr False, w1)"
    using Suc.prems(1)[rule_format, of 0] by (cases "p w") simp
  let ?w2 = "system_sleep i w1"
  have w2: "polls p i j ?w2 = polls p i (Suc j) w" for j by (simp add: pw)
  have lt: "os_time ?w2 < d" using Suc.prems(2)[rule_format, of 1] by (simp add: pw)
  have "wait_loop p i d ?w2 = Some (Inr False, polls p i (Suc k) ?w2)"
  proof (rule Suc.IH)
    show "\<forall>j\<le>k. fst (p (polls p i j ?w2)) = Inr False"
      using Suc.prems(1) unfolding w2 by auto
    show "\<forall>j. 1 \<le> j \<and> j \<le> k \<longrightarrow> os_time (polls p i j ?w2) < d"
      using Suc.prems(2) unfolding w2 by auto
    show "d \<le> os_time (polls p i (Suc k) ?w2)"
      using Suc.prems(3) unfolding w2 .
  qed
  then show ?case
    using lt unfolding w2 by (subst wait_loop.simps) (simp add: pw Let_def)
qed

lemma clock_polls:
  "(\<And>v. clock (snd (p v)) = clock v) \<Longrightarrow> clock (polls p i k w) = clock w + real k * i"
  by (induction k arbitrary: w) (simp_all add: system_sleep_def emit_def algebra_simps)

lemma wait_stop:
  assumes "\<forall>j<k. fst (p (polls p (interval_of settings) j w)) = Inr False"
    and "fst (p (polls p (interval_of settings) k w)) \<noteq> Inr False"
    and "\<forall>j. 1 \<le> j \<and> j \<le> k \<longrightarrow> os_time (polls p (interval_of settings) j w) < os_time w + timeout"
  shows "wait p timeout settings w = Some (p (polls p (interval_of settings) k w))"
  unfolding wait_def Let_def using assms by (rule wait_loop_stop)

lemma wait_timeout:
  assumes "1 \<le> k"
    and "\<forall>j<k. fst (p (polls p (interval_of settings) j w)) = Inr False"
    and "\<forall>j. 1 \<le> j \<and> j < k \<longrightarrow> os_time (polls p (interval_of settings) j w) < os_time w + timeout"
    and "os_time w + timeout \<le> os_time (polls p (interval_of settings) k w)"
  shows "wait p timeout settings w = Some (Inr False, polls p (interval_of settings) k w)"
proof -
  obtain k' where k: "k = Suc k'" using assms(1) by (cases k) auto
  show ?thesis
    unfolding wait_def Let_def k
    by (rule wait_loop_timeout) (use assms(2-4) k in \<open>simp_all add: less_Suc_eq_le\<close>)
qed

lemma wait_returns:
  assumes c: "\<And>v. clock (snd (p v)) = clock v"
    and i: "0 < interval_of settings"
  shows "\<exists>k. wait p timeout settings w = Some (p (polls p (interval_of settings) k w))
           \<or> wait p timeout settings w = Some (Inr False, polls p (interval_of settings) k w)"
proof -
  let ?i = "interval_of settings"
  let ?W = "\<lambda>j. polls p ?i j w"
  let ?K = "\<lambda>k. 1 \<le> k \<and> os_time w + timeout \<le> os_time (?W k)"
  have cl: "clock (?W j) = clock w + real j * ?i" for j by (rule clock_polls[OF c])
  obtain n where n: "os_time w + timeout + 1 - clock w < real n * ?i"
    using ex_less_of_nat_mult[OF i] by auto
  have "?K (max n 1)"
  proof -
    have "real n * ?i \<le> real (max n 1) * ?i" using i by (simp add: mult_right_mono)
    then have "os_time w + timeout + 1 < clock (?W (max n 1))" using n unfolding cl by linarith
    moreover have "clock (?W (max n 1)) < os_time (?W (max n 1)) + 1"
      unfolding os_time_def by linarith
    ultimately show ?thesis by simp
  qed
  then have K: "?K (LEAST k. ?K k)" by (rule LeastI)
  define k0 where "k0 = (LEAST k. ?K k)"
  have before: "os_time (?W j) < os_time w + timeout" if "1 \<le> j" "j < k0" for j
  proof -
    have "\<not> ?K j" using that(2) unfolding k0_def by (rule not_less_Least)
    then show ?thesis using that(1) by simp
  qed
  show ?thesis
  proof (cases "\<exists>j<k0. fst (p (?W j)) \<noteq> Inr False")
    case True
    then obtain j where j: "j < k0" "fst (p (?W j)) \<noteq> Inr False" by auto
    define j0 where "j0 = (LEAST j. fst (p (?W j)) \<noteq> Inr False)"
    have h: "fst (p (?W j0)) \<noteq> Inr False" unfolding j0_def using j(2) by (rule LeastI)
    have le: "j0 \<le> j" unfolding j0_def using j(2) by (rule Least_le)
    have nb: "\<forall>j<j0. fst (p (?W j)) = Inr False"
      unfolding j0_def using not_less_Least by blast
    have "\<forall>j. 1 \<le> j \<and> j \<le> j0 \<longrightarrow> os_time (?W j) < os_time w + timeout"
      using before le j(1) by auto
    from wait_stop[OF nb h this] show ?thesis by blast
  next
    case False
    then have nb: "\<forall>j<k0. fst (p (?W j)) = Inr False" by blast
    have "\<forall>j. 1 \<le> j \<and> j < k0 \<longrightarrow> os_time (?W j) < os_time w + timeout" using before by blast
    from wait_timeout[OF _ nb this] K show ?thesis unfolding k0_def by blast
  qed
qed

lemma timeout_not_early:
  assumes "os_time w + timeout \<le> os_time w'"
  shows "timeout - 1 < clock w' - clock w"
  using assms unfolding os_time_def by linarith

lemma os_time_polls_unit:
  assumes "\<And>v. clock (snd (p v)) = clock v"
  shows "os_time (polls p 1 j w) = os_time w + real j"
proof -
  have "\<lfloor>clock w + real j\<rfloor> = \<lfloor>clock w\<rfloor> + int j" by linarith
  then show ?thesis unfolding os_time_def clock_polls[of p, OF assms] by simp
qed

text \<open>
  C8, amended. \<^verbatim>\<open>wait\<close> evaluates the predicate at once and returns true without
  sleeping if it holds. Otherwise it sleeps for the interval (1 without settings, the
  interval of the settings otherwise) and evaluates again; it returns what the first
  evaluation gives that is not false (true, or the error the predicate raises). After a
  sleep it returns false, without another evaluation, as soon as \<^verbatim>\<open>os.time()\<close>, which
  counts whole seconds, has reached its value at the call plus the timeout. For a
  predicate that takes no time this is later than one second before the timeout, and
  with a positive interval \<^verbatim>\<open>wait\<close> always returns. With timeout 5 and interval 1, a
  predicate that holds from 3 seconds on gives true after 3 seconds, and one that never
  holds gives false after 5 seconds.
\<close>

theorem wait_contract:
  "interval_of None = 1 \<and> interval_of (Some x) = x
   \<and> os_time w = of_int \<lfloor>clock w\<rfloor>
   \<and> (fst (predicate w) = Inr True
        \<longrightarrow> wait predicate timeout settings w = Some (Inr True, snd (predicate w)))
   \<and> (\<forall>k. (\<forall>j<k. fst (predicate (polls predicate (interval_of settings) j w)) = Inr False)
          \<and> fst (predicate (polls predicate (interval_of settings) k w)) \<noteq> Inr False
          \<and> (\<forall>j. 1 \<le> j \<and> j \<le> k
                \<longrightarrow> os_time (polls predicate (interval_of settings) j w) < os_time w + timeout)
        \<longrightarrow> wait predicate timeout settings w
              = Some (predicate (polls predicate (interval_of settings) k w)))
   \<and> (\<forall>k. 1 \<le> k
          \<and> (\<forall>j<k. fst (predicate (polls predicate (interval_of settings) j w)) = Inr False)
          \<and> (\<forall>j. 1 \<le> j \<and> j < k
                \<longrightarrow> os_time (polls predicate (interval_of settings) j w) < os_time w + timeout)
          \<and> os_time w + timeout \<le> os_time (polls predicate (interval_of settings) k w)
        \<longrightarrow> wait predicate timeout settings w
              = Some (Inr False, polls predicate (interval_of settings) k w))
   \<and> ((\<forall>v. clock (snd (predicate v)) = clock v)
        \<longrightarrow> (\<forall>k. clock (polls predicate (interval_of settings) k w)
                    = clock w + real k * interval_of settings)
            \<and> (\<forall>k. os_time w + timeout \<le> os_time (polls predicate (interval_of settings) k w)
                    \<longrightarrow> timeout - 1 < real k * interval_of settings)
            \<and> (0 < interval_of settings
                \<longrightarrow> (\<exists>k. wait predicate timeout settings w
                             = Some (predicate (polls predicate (interval_of settings) k w))
                         \<or> wait predicate timeout settings w
                             = Some (Inr False, polls predicate (interval_of settings) k w))))
   \<and> ((\<forall>v. clock (snd (predicate v)) = clock v)
        \<and> (\<forall>v. fst (predicate v) = Inr (clock w + 3 \<le> clock v))
        \<and> timeout = 5 \<and> settings = None
        \<longrightarrow> wait predicate timeout settings w = Some (predicate (polls predicate 1 3 w))
            \<and> fst (predicate (polls predicate 1 3 w)) = Inr True
            \<and> clock (snd (predicate (polls predicate 1 3 w))) = clock w + 3)
   \<and> ((\<forall>v. clock (snd (predicate v)) = clock v)
        \<and> (\<forall>v. fst (predicate v) = Inr False)
        \<and> timeout = 5 \<and> settings = None
        \<longrightarrow> wait predicate timeout settings w = Some (Inr False, polls predicate 1 5 w)
            \<and> clock (polls predicate 1 5 w) = clock w + 5)"
proof (intro conjI allI impI)
  show "interval_of None = 1" "interval_of (Some x) = x" by (simp_all add: interval_of_def)
  show "os_time w = of_int \<lfloor>clock w\<rfloor>" by (simp add: os_time_def)
next
  assume a: "fst (predicate w) = Inr True"
  then have "wait predicate timeout settings w = Some (predicate w)"
    using wait_stop[of 0 predicate settings w timeout] by simp
  then show "wait predicate timeout settings w = Some (Inr True, snd (predicate w))"
    using a by (simp add: prod_eq_iff)
next
  fix k
  assume "(\<forall>j<k. fst (predicate (polls predicate (interval_of settings) j w)) = Inr False)
          \<and> fst (predicate (polls predicate (interval_of settings) k w)) \<noteq> Inr False
          \<and> (\<forall>j. 1 \<le> j \<and> j \<le> k
                \<longrightarrow> os_time (polls predicate (interval_of settings) j w) < os_time w + timeout)"
  then show "wait predicate timeout settings w
              = Some (predicate (polls predicate (interval_of settings) k w))"
    using wait_stop[of k predicate settings w timeout] by blast
next
  fix k
  assume "1 \<le> k
          \<and> (\<forall>j<k. fst (predicate (polls predicate (interval_of settings) j w)) = Inr False)
          \<and> (\<forall>j. 1 \<le> j \<and> j < k
                \<longrightarrow> os_time (polls predicate (interval_of settings) j w) < os_time w + timeout)
          \<and> os_time w + timeout \<le> os_time (polls predicate (interval_of settings) k w)"
  then show "wait predicate timeout settings w
              = Some (Inr False, polls predicate (interval_of settings) k w)"
    using wait_timeout[of k predicate settings w timeout] by blast
next
  fix k
  assume c: "\<forall>v. clock (snd (predicate v)) = clock v"
  show "clock (polls predicate (interval_of settings) k w)
          = clock w + real k * interval_of settings"
    using c by (intro clock_polls) simp
next
  fix k
  assume c: "\<forall>v. clock (snd (predicate v)) = clock v"
    and d: "os_time w + timeout \<le> os_time (polls predicate (interval_of settings) k w)"
  have "clock (polls predicate (interval_of settings) k w)
          = clock w + real k * interval_of settings"
    using c by (intro clock_polls) simp
  then show "timeout - 1 < real k * interval_of settings"
    using timeout_not_early[OF d] by simp
next
  assume c: "\<forall>v. clock (snd (predicate v)) = clock v" and i: "0 < interval_of settings"
  show "\<exists>k. wait predicate timeout settings w
               = Some (predicate (polls predicate (interval_of settings) k w))
           \<or> wait predicate timeout settings w
               = Some (Inr False, polls predicate (interval_of settings) k w)"
    using c i by (intro wait_returns) simp_all
next
  assume a: "(\<forall>v. clock (snd (predicate v)) = clock v)
        \<and> (\<forall>v. fst (predicate v) = Inr (clock w + 3 \<le> clock v))
        \<and> timeout = 5 \<and> settings = None"
  then have c: "\<And>v. clock (snd (predicate v)) = clock v" by simp
  have i: "interval_of settings = 1" using a by (simp add: interval_of_def)
  have cl: "clock (polls predicate 1 j w) = clock w + real j" for j
    using clock_polls[of predicate 1 j w, OF c] by simp
  have ot: "os_time (polls predicate 1 j w) = os_time w + real j" for j
    by (rule os_time_polls_unit[OF c])
  show "wait predicate timeout settings w = Some (predicate (polls predicate 1 3 w))"
    using wait_stop[of 3 predicate settings w timeout] a unfolding i by (simp add: cl ot)
  show "fst (predicate (polls predicate 1 3 w)) = Inr True" using a by (simp add: cl)
  show "clock (snd (predicate (polls predicate 1 3 w))) = clock w + 3" using c by (simp add: cl)
next
  assume a: "(\<forall>v. clock (snd (predicate v)) = clock v)
        \<and> (\<forall>v. fst (predicate v) = Inr False)
        \<and> timeout = 5 \<and> settings = None"
  then have c: "\<And>v. clock (snd (predicate v)) = clock v" by simp
  have i: "interval_of settings = 1" using a by (simp add: interval_of_def)
  have cl: "clock (polls predicate 1 j w) = clock w + real j" for j
    using clock_polls[of predicate 1 j w, OF c] by simp
  have ot: "os_time (polls predicate 1 j w) = os_time w + real j" for j
    by (rule os_time_polls_unit[OF c])
  show "wait predicate timeout settings w = Some (Inr False, polls predicate 1 5 w)"
    using wait_timeout[of 5 predicate settings w timeout] a unfolding i by (simp add: ot)
  show "clock (polls predicate 1 5 w) = clock w + 5" by (simp add: cl)
qed

theorem wait_contract_witness:
  "wait (\<lambda>v. (Inr (3 \<le> clock v), emit GetHvCurrent v)) 5 None w0
     = Some (Inr True, emit GetHvCurrent (polls (\<lambda>v. (Inr (3 \<le> clock v), emit GetHvCurrent v)) 1 3 w0))
   \<and> wait (\<lambda>v. (Inr False, emit GetHvCurrent v)) 5 None w0
     = Some (Inr False, polls (\<lambda>v. (Inr False, emit GetHvCurrent v)) 1 5 w0)
   \<and> clock (polls (\<lambda>v. (Inr False, emit GetHvCurrent v)) 1 5 w0) = 5"
  using wait_contract[of _ w0 "\<lambda>v. (Inr (3 \<le> clock v), emit GetHvCurrent v)" 5 None]
    wait_contract[of _ w0 "\<lambda>v. (Inr False, emit GetHvCurrent v)" 5 None]
  by (simp add: w0_def emit_def)

text \<open>
  C8, as claimed: false is returned once the time since the call has reached the
  timeout. Called at 0.6 seconds with timeout 1 and interval 0.5, \<^verbatim>\<open>wait\<close> returns false
  after one sleep, half a second after the call: \<^verbatim>\<open>os.time()\<close> was 0 at the call and is 1
  then.
\<close>

theorem wait_returns_false_early:
  "wait (\<lambda>v. (Inr False, emit GetHvCurrent v)) 1 (Some (1 / 2))
       \<lparr>clock = 3 / 5, trace = [], newPowderLayer = None\<rparr>
     = Some (Inr False,
         \<lparr>clock = 11 / 10, trace = [GetHvCurrent, Sleep (1 / 2)], newPowderLayer = None\<rparr>)
   \<and> (11 / 10 - 3 / 5 :: real) < 1"
  unfolding wait_def Let_def
  by (subst wait_loop.simps)
     (simp add: interval_of_def os_time_def system_sleep_def emit_def)

section \<open>Properties of the layer loop\<close>

lemma wait_immediate:
  "predicate w = (Inr True, w1) \<Longrightarrow> wait predicate t s w = Some (Inr True, w1)"
  unfolding wait_def Let_def by (subst wait_loop.simps) simp

lemma activities_emit [simp]:
  "activities (emit e w) = activities w @ (case published e of None \<Rightarrow> [] | Some g \<Rightarrow> [g])"
  by (simp add: activities_def emit_def List.map_filter_def split: option.splits)

lemma activities_update [simp]:
  "activities (w\<lparr>newPowderLayer := x\<rparr>) = activities w"
  "activities (w\<lparr>clock := c\<rparr>) = activities w"
  by (simp_all add: activities_def)

lemma trace_emit [simp]: "trace (emit e w) = trace w @ [e]"
  by (simp add: emit_def)

lemma exposing_logs_emit:
  "exposing_logs (emit e w) = exposing_logs w @
     (case published e of None \<Rightarrow> []
      | Some g \<Rightarrow> if take 1 g = [S ''Exposing OBP files of layer ''] then [g] else [])"
  by (simp add: exposing_logs_def split: option.splits)

lemma exposing_logs_update [simp]:
  "exposing_logs (w\<lparr>newPowderLayer := x\<rparr>) = exposing_logs w"
  "exposing_logs (w\<lparr>clock := c\<rparr>) = exposing_logs w"
  by (simp_all add: exposing_logs_def)


lemma exposing_logs_logfatal [simp]: "exposing_logs (snd (logfatal m msg w)) = exposing_logs w"
  by (simp add: host_defs exposing_logs_emit)

lemma exposing_logs_classify [simp]: "exposing_logs (snd (classify e w)) = exposing_logs w"
  by (simp add: classify_def host_defs exposing_logs_emit)

lemma exposing_logs_recover [simp]: "exposing_logs (snd (recover m e w)) = exposing_logs w"
  by (simp add: recover_def host_defs exposing_logs_emit)

lemma exposing_logs_handle [simp]: "exposing_logs (snd (handle m e rc w)) = exposing_logs w"
proof -
  obtain d w1 where c: "classify e w = (d, w1)" by (cases "classify e w")
  obtain r w2 where r: "recover m e w1 = (r, w2)" by (cases "recover m e w1")
  have 1: "exposing_logs w1 = exposing_logs w" using exposing_logs_classify[of e w] c by simp
  have 2: "exposing_logs w2 = exposing_logs w1" using exposing_logs_recover[of m e w1] r by simp
  show ?thesis
    using 1 2 by (cases r) (simp_all add: handle_def c r Let_def)
qed




















lemma failing_recovery_sel [simp]:
  "beam_is_on (failing_recovery e) = (\<lambda>_. True)"
  "clear_exposure_queue (failing_recovery e) = (\<lambda>_. True)"
  "recoat_cycle (failing_recovery e) = (\<lambda>_. True)"
  "start_process_step_exposures (failing_recovery e) = (\<lambda>_. e)"
  "restart_after_arc_trip (failing_recovery e) = (\<lambda>_. False)"
  "get_hv_current (failing_recovery e) = (\<lambda>_. Some 0)"
  "get_field (failing_recovery e) = (\<lambda>_. 0)"
  by (simp_all add: failing_recovery_def)


section \<open>The abort on a beam current that stays high\<close>

lemma activities_polls_hv:
  "activities (polls (hv_current_low m) i k w) = activities w"
  by (induction k arbitrary: w) (simp_all add: hv_current_low_def call_def system_sleep_def)

lemma hv_never_low:
  "hv_current_low (constant_machine e r 5) v = (Inr False, emit GetHvCurrent v)"
  by (simp add: hv_current_low_def call_def)

lemma wait_for_beam_power_low_abort:
  "\<exists>w1. wait_for_beam_power_low (constant_machine e r 5) w = Some (Inl beam_power_abort, w1)
     \<and> activities w1 = activities w \<and> last (trace w1) = ClearExposureQueue"
proof -
  let ?p = "hv_current_low (constant_machine e r 5)"
  have c: "clock (snd (?p v)) = clock v" for v by (simp add: hv_never_low emit_def)
  have ot: "os_time (polls ?p 1 j w) = os_time w + real j" for j
    by (rule os_time_polls_unit[OF c])
  have "wait ?p 30 None w = Some (Inr False, polls ?p (interval_of None) 30 w)"
    by (rule wait_timeout) (simp_all add: interval_of_def hv_never_low ot)
  then show ?thesis
    by (simp add: wait_for_beam_power_low_def and_then_def call_def beam_power_abort_def
        activities_polls_hv)
qed

lemma start_heating_ok:
  assumes "targetTemperature sh \<le> 1000"
  shows "\<exists>w1. start_heating (constant_machine e r 5) sh w = Some (Inr (), w1)
     \<and> activities w1 = activities w @
         [[S ''Init''], [S ''Turning on the beam''], [S ''The beam is active''],
          [S ''Start heating to target temperature: '', R (targetTemperature sh)]]"
proof -
  let ?m = "constant_machine e r 5"
  have sb: "start_beam ?m v = (Inr (), emit BeamIsOn v)" for v
    by (simp add: start_beam_def call_def)
  have tr: "temperature_reached ?m sh v
      = (Inr True, emit (GetTemperature (temperatureSensor sh)) (emit BeamIsOn v))" for v
    using assms by (simp add: temperature_reached_def sb call_def)
  show ?thesis
    by (simp add: start_heating_def sb wait_immediate[OF tr] and_then_def call_def
        log_msg_def system_print_def)
qed

lemma process_layer_abort:
  "\<exists>w1. process_layer (constant_machine e r 5) lf n i l w = Some (Inl beam_power_abort, w1)
     \<and> activities w1 = activities w @ [[S ''Waiting for beam power low'']]
     \<and> last (trace w1) = ClearExposureQueue"
proof -
  let ?w3 = "log_msg [S ''Waiting for beam power low'']
      (emit (PublishLayers n i) (system_print [S ''Starting to process layer '', N (int i)] w))"
  obtain w1 where w1: "wait_for_beam_power_low (constant_machine e r 5) ?w3 = Some (Inl beam_power_abort, w1)"
    "activities w1 = activities ?w3" "last (trace w1) = ClearExposureQueue"
    using wait_for_beam_power_low_abort[of e r ?w3] by blast
  show ?thesis
    using w1 by (simp add: process_layer_def and_then_def log_msg_def system_print_def)
qed

text \<open>
  C9. The claim is that every abort is preceded by a queue clear and by a message
  published to telemetry. The abort of \<^verbatim>\<open>wait_for_beam_power_low\<close> is not published: on a
  machine whose beam current stays at 5, a build of one layer ends in the error
  \<^verbatim>\<open>Build Aborted: BeamPowerLow condition timed out\<close>; the queue clear is the last call
  made, and the last message published is \<^verbatim>\<open>Waiting for beam power low\<close>.
\<close>

theorem beam_power_low_abort_unpublished:
  "map_option fst (build_script (constant_machine 0 0 5) sample_build w0)
     = Some (Inl (Error [S ''Build Aborted: BeamPowerLow condition timed out'']))
   \<and> map_option (\<lambda>r. activities (snd r)) (build_script (constant_machine 0 0 5) sample_build w0)
     = Some [[N 0], [N 0], [S ''Init''], [S ''Turning on the beam''], [S ''The beam is active''],
             [S ''Start heating to target temperature: '', R 800],
             [S ''Waiting for beam power low'']]
   \<and> map_option (\<lambda>r. last (trace (snd r))) (build_script (constant_machine 0 0 5) sample_build w0)
     = Some ClearExposureQueue"
proof -
  let ?m = "constant_machine 0 0 5"
  let ?w5 = "emit (PublishField ''Parameters'' ''Name'' ''PostHeatRepetitions'' ''repetitions'' [N 0])
      (emit (PublishField ''Parameters'' ''Name'' ''PreHeatRepetitions'' ''repetitions'' [N 0])
      (emit (AddSubscription heat_balance_input) (emit (AddSubscription jump_safe_input)
      (emit (PublishLayers 1 0) w0))))"
  obtain w6 where w6: "start_heating ?m (startHeat sample_build) ?w5 = Some (Inr (), w6)"
    "activities w6 = activities ?w5 @
         [[S ''Init''], [S ''Turning on the beam''], [S ''The beam is active''],
          [S ''Start heating to target temperature: '', R 800]]"
    using start_heating_ok[of "startHeat sample_build" 0 0 ?w5] by (auto simp: sample_build_def)
  let ?w7 = "system_print [S ''OBF has '', N 1, S '' layers.''] w6"
  obtain w8 where w8: "process_layer ?m [] 1 1 sample_layer ?w7 = Some (Inl beam_power_abort, w8)"
    "activities w8 = activities ?w7 @ [[S ''Waiting for beam power low'']]"
    "last (trace w8) = ClearExposureQueue"
    using process_layer_abort[of 0 0 "[]" 1 1 sample_layer ?w7] by blast
  have "build_script ?m sample_build w0 = Some (Inl beam_power_abort, w8)"
    using w6(1) w8(1)
    by (simp add: build_script_def and_then_def Let_def sample_build_def)
  then show ?thesis
    using w6(2) w8(2,3) by (simp add: beam_power_abort_def system_print_def)
qed

section \<open>Properties of the converter\<close>

lemma for_files_eq:
  "for_files mk n fs ls = ls @ map mk (take (nat (n - int (length ls))) fs)"
proof (induction fs arbitrary: ls)
  case Nil
  then show ?case by simp
next
  case (Cons b rest)
  show ?case
  proof (cases "int (length ls) \<ge> n")
    case True
    then show ?thesis by simp
  next
    case False
    then obtain r where r: "nat (n - int (length ls)) = Suc r" "nat (n - int (length (ls @ [mk b]))) = r"
      by (cases "nat (n - int (length ls))") auto
    show ?thesis using False Cons.IH[of "ls @ [mk b]"] r by simp
  qed
qed

lemma while_layers_empty:
  assumes "while_layers mk n files ls = Some y"
  shows "files = [] \<longrightarrow> \<not> int (length ls) < n"
  by (rule while_layers.raw_induct
        [where P = "\<lambda>mk n files ls y. files = [] \<longrightarrow> \<not> int (length ls) < n", OF _ assms])
     (auto split: if_splits)

lemma mod_block: "j * L \<le> i \<Longrightarrow> i < j * L + L \<Longrightarrow> i mod L = i - j * (L::nat)"
proof -
  assume a: "j * L \<le> i" "i < j * L + L"
  then obtain d where d: "i = L * j + d" "d < L"
    by (metis add.commute le_Suc_ex mult.commute nat_add_left_cancel_less)
  show ?thesis unfolding d by (simp add: d(2))
qed

lemma cycle_files_block:
  assumes "r \<le> length files"
  shows "cycle_files files (j * length files + r) = cycle_files files (j * length files) @ take r files"
proof (rule nth_equalityI)
  show "length (cycle_files files (j * length files + r))
      = length (cycle_files files (j * length files) @ take r files)"
    using assms by (simp add: cycle_files_def)
next
  fix i assume "i < length (cycle_files files (j * length files + r))"
  then have i: "i < j * length files + r" by (simp add: cycle_files_def)
  show "cycle_files files (j * length files + r) ! i
      = (cycle_files files (j * length files) @ take r files) ! i"
  proof (cases "i < j * length files")
    case True
    then show ?thesis using i by (simp add: cycle_files_def nth_append)
  next
    case False
    then have "i mod length files = i - j * length files"
      using i assms by (intro mod_block) auto
    then show ?thesis using False i assms by (simp add: cycle_files_def nth_append)
  qed
qed

lemma while_layers_cycle:
  assumes ne: "files \<noteq> []"
  shows "length ls = j * length files \<Longrightarrow> length ls \<le> k \<Longrightarrow>
    ls = map mk (cycle_files files (length ls)) \<Longrightarrow>
    while_layers mk (int k) files ls = Some (map mk (cycle_files files k))"
proof (induction "k - length ls" arbitrary: ls j rule: less_induct)
  case less
  let ?L = "length files"
  have L: "0 < ?L" using ne by simp
  show ?case
  proof (cases "length ls = k")
    case True
    then show ?thesis using less.prems(3) by (subst while_layers.simps) simp
  next
    case False
    then have lt: "length ls < k" using less.prems(2) by simp
    let ?r = "min (k - length ls) ?L"
    have ff: "for_files mk (int k) files ls = ls @ map mk (take (k - length ls) files)"
      using lt by (simp add: for_files_eq nat_diff_distrib')
    have step: "while_layers mk (int k) files ls
        = while_layers mk (int k) files (ls @ map mk (take (k - length ls) files))"
      using lt by (subst while_layers.simps) (simp add: ff)
    show ?thesis
    proof (cases "?L \<le> k - length ls")
      case True
      let ?ls' = "ls @ map mk files"
      have 1: "length ?ls' = Suc j * ?L" using less.prems(1) by simp
      have 2: "length ?ls' \<le> k" using True lt by simp
      have 3: "?ls' = map mk (cycle_files files (length ?ls'))"
        using cycle_files_block[of ?L files j] less.prems(1,3) by simp
      have 4: "k - length ?ls' < k - length ls" using L lt by (simp del: length_greater_0_conv)
      from less.hyps[OF 4 1 2 3] show ?thesis using step True by simp
    next
      case False
      let ?r = "k - length ls"
      let ?ls' = "ls @ map mk (take ?r files)"
      have len: "length ?ls' = k" using False lt by simp
      have "cycle_files files k = cycle_files files (j * ?L) @ take ?r files"
        using cycle_files_block[of ?r files j] False less.prems(1) lt by simp
      then have "?ls' = map mk (cycle_files files k)"
        using less.prems(1,3) by simp
      moreover have "while_layers mk (int k) files ?ls' = Some ?ls'"
        using len by (subst while_layers.simps) simp
      ultimately show ?thesis using step by simp
    qed
  qed
qed


text \<open>
  C10. For a positive layer count, the layer construction of \<^verbatim>\<open>convert\<close> ends exactly
  when the files list is not empty. It then gives exactly that many layers, built from
  the entries of the files list in order, starting again at the first entry when the
  list is exhausted; the jumpSafe group of every layer is the preheat pattern alone and
  the heatBalance group the postheat pattern alone.
\<close>

theorem convert_layers_cycle:
  "0 < n \<longrightarrow>
     (convert_layers name boss_preheat boss_postheat n files \<noteq> None \<longleftrightarrow> files \<noteq> [])
   \<and> (files \<noteq> [] \<longrightarrow>
        convert_layers name boss_preheat boss_postheat n files
          = Some (map (new_layer name (heat_dict name boss_preheat) (heat_dict name boss_postheat))
                    (cycle_files files (nat n))))
   \<and> length (cycle_files files (nat n)) = nat n
   \<and> (\<forall>i < nat n. cycle_files files (nat n) ! i = files ! (i mod length files))
   \<and> jumpSafe (new_layer name (heat_dict name boss_preheat) (heat_dict name boss_postheat) b)
       = Some [heat_dict name boss_preheat]
   \<and> heatBalance (new_layer name (heat_dict name boss_preheat) (heat_dict name boss_postheat) b)
       = Some [heat_dict name boss_postheat]"
proof
  assume n: "0 < n"
  let ?mk = "new_layer name (heat_dict name boss_preheat) (heat_dict name boss_postheat)"
  have cyc: "while_layers ?mk n files [] = Some (map ?mk (cycle_files files (nat n)))"
    if "files \<noteq> []"
    using while_layers_cycle[OF that, of "[]" 0 "nat n" ?mk] n by (simp add: cycle_files_def)
  have emp: "while_layers ?mk n files [] = None" if "files = []"
  proof (cases "while_layers ?mk n files []")
    case (Some y)
    then show ?thesis using while_layers_empty[OF Some] that n by simp
  qed simp
  show "(convert_layers name boss_preheat boss_postheat n files \<noteq> None \<longleftrightarrow> files \<noteq> [])
   \<and> (files \<noteq> [] \<longrightarrow>
        convert_layers name boss_preheat boss_postheat n files
          = Some (map ?mk (cycle_files files (nat n))))
   \<and> length (cycle_files files (nat n)) = nat n
   \<and> (\<forall>i < nat n. cycle_files files (nat n) ! i = files ! (i mod length files))
   \<and> jumpSafe (?mk b) = Some [heat_dict name boss_preheat]
   \<and> heatBalance (?mk b) = Some [heat_dict name boss_postheat]"
    using cyc emp by (auto simp: convert_layers_def cycle_files_def new_layer_def)
qed

theorem convert_layers_cycle_witness:
  "convert_layers (\<lambda>f. f) \<lparr>obp_file = ''pre.obp'', repetitions = 4\<rparr>
       \<lparr>obp_file = ''post.obp'', repetitions = 2\<rparr> 3 [File ''a.obp'', Files [''b.obp'', ''c.obp'']]
     = Some [\<lparr>jumpSafe = Some [\<lparr>obp_file = ''obp/pre.obp'', repetitions = 4\<rparr>], spatterSafe = None,
              melt = [\<lparr>obp_file = ''obp/a.obp'', repetitions = 1\<rparr>],
              heatBalance = Some [\<lparr>obp_file = ''obp/post.obp'', repetitions = 2\<rparr>]\<rparr>,
             \<lparr>jumpSafe = Some [\<lparr>obp_file = ''obp/pre.obp'', repetitions = 4\<rparr>], spatterSafe = None,
              melt = [\<lparr>obp_file = ''obp/b.obp'', repetitions = 1\<rparr>,
                      \<lparr>obp_file = ''obp/c.obp'', repetitions = 1\<rparr>],
              heatBalance = Some [\<lparr>obp_file = ''obp/post.obp'', repetitions = 2\<rparr>]\<rparr>,
             \<lparr>jumpSafe = Some [\<lparr>obp_file = ''obp/pre.obp'', repetitions = 4\<rparr>], spatterSafe = None,
              melt = [\<lparr>obp_file = ''obp/a.obp'', repetitions = 1\<rparr>],
              heatBalance = Some [\<lparr>obp_file = ''obp/post.obp'', repetitions = 2\<rparr>]\<rparr>]
   \<and> convert_layers (\<lambda>f. f) \<lparr>obp_file = ''pre.obp'', repetitions = 4\<rparr>
       \<lparr>obp_file = ''post.obp'', repetitions = 2\<rparr> 3 [] = None"
  using convert_layers_cycle[of 3 "\<lambda>f. f" "\<lparr>obp_file = ''pre.obp'', repetitions = 4\<rparr>"
      "\<lparr>obp_file = ''post.obp'', repetitions = 2\<rparr>" "[File ''a.obp'', Files [''b.obp'', ''c.obp'']]"]
    convert_layers_cycle[of 3 "\<lambda>f. f" "\<lparr>obp_file = ''pre.obp'', repetitions = 4\<rparr>"
      "\<lparr>obp_file = ''post.obp'', repetitions = 2\<rparr>" "[]"]
  by (simp add: cycle_files_def new_layer_def heat_dict_def file_dict_def upt_conv_Cons
      eval_nat_numeral)

end
